theory Spec2Isabelle
  imports Complex_Main "HOL-Library.AList"
begin

section \<open>JavaScript numbers\<close>

text \<open>
  The pipeline of \<^verbatim>\<open>src/lib/deathCertPipeline.ts\<close> computes with JavaScript numbers.
  A number is a real, one of the two infinities, or NaN; there is one zero (a zero
  divisor behaves as \<open>+0\<close>). NaN and the infinities are kept because the source can
  produce them: \<^verbatim>\<open>Math.min()\<close> of no argument is \<open>+Infinity\<close>, and
  \<^verbatim>\<open>Math.min\<close> of an argument that is \<^verbatim>\<open>undefined\<close> is NaN.

  A subtraction or a division of finite numbers rounds its exact result to binary64. The
  rounding is a parameter \<open>rnd\<close> of every function that subtracts or divides: \<open>rnd r\<close> is
  the number the runtime returns for the exact result \<open>r\<close>, a finite number or, on
  overflow, an infinity. Comparisons, \<^verbatim>\<open>Math.min\<close> and \<^verbatim>\<open>Math.max\<close> do not round.
\<close>

datatype number = NaN | NegInf | Fin real | PosInf

text \<open>The comparison \<^verbatim>\<open>a <= b\<close>: false as soon as one side is NaN.\<close>

fun js_le :: "number \<Rightarrow> number \<Rightarrow> bool" where
  "js_le NaN b = False"
| "js_le a NaN = False"
| "js_le NegInf b = True"
| "js_le a PosInf = True"
| "js_le (Fin a) (Fin b) = (a \<le> b)"
| "js_le a b = False"

text \<open>\<^verbatim>\<open>a - b\<close> and \<^verbatim>\<open>a / b\<close>.\<close>

fun js_sub :: "(real \<Rightarrow> number) \<Rightarrow> number \<Rightarrow> number \<Rightarrow> number" where
  "js_sub rnd NaN b = NaN"
| "js_sub rnd a NaN = NaN"
| "js_sub rnd (Fin a) (Fin b) = rnd (a - b)"
| "js_sub rnd PosInf PosInf = NaN"
| "js_sub rnd NegInf NegInf = NaN"
| "js_sub rnd PosInf b = PosInf"
| "js_sub rnd NegInf b = NegInf"
| "js_sub rnd a PosInf = NegInf"
| "js_sub rnd a NegInf = PosInf"

fun js_div :: "(real \<Rightarrow> number) \<Rightarrow> number \<Rightarrow> number \<Rightarrow> number" where
  "js_div rnd NaN b = NaN"
| "js_div rnd a NaN = NaN"
| "js_div rnd (Fin a) (Fin b) =
     (if b = 0 then (if a = 0 then NaN else if 0 < a then PosInf else NegInf)
      else rnd (a / b))"
| "js_div rnd (Fin a) b = Fin 0"
| "js_div rnd PosInf (Fin b) = (if 0 \<le> b then PosInf else NegInf)"
| "js_div rnd NegInf (Fin b) = (if 0 \<le> b then NegInf else PosInf)"
| "js_div rnd a b = NaN"

text \<open>
  \<^verbatim>\<open>Math.min(...values)\<close> and \<^verbatim>\<open>Math.max(...values)\<close>: the running result starts at
  \<open>+Infinity\<close> (resp. \<open>-Infinity\<close>), and any NaN argument makes the result NaN.
\<close>

definition min2 :: "number \<Rightarrow> number \<Rightarrow> number" where
  "min2 a b = (if a = NaN \<or> b = NaN then NaN else if js_le a b then a else b)"

definition max2 :: "number \<Rightarrow> number \<Rightarrow> number" where
  "max2 a b = (if a = NaN \<or> b = NaN then NaN else if js_le a b then b else a)"

definition Math_min :: "number list \<Rightarrow> number" where
  "Math_min values = foldl min2 PosInf values"

definition Math_max :: "number list \<Rightarrow> number" where
  "Math_max values = foldl max2 NegInf values"

text \<open>
  An array read \<^verbatim>\<open>a[i]\<close> yields \<^verbatim>\<open>undefined\<close> (here \<open>None\<close>) past the end of the
  array; \<^verbatim>\<open>v ?? d\<close> replaces \<^verbatim>\<open>undefined\<close> by \<open>d\<close>; a built-in that expects a number
  reads \<^verbatim>\<open>undefined\<close> as NaN.
\<close>

definition elem_at :: "'a list \<Rightarrow> nat \<Rightarrow> 'a option" where
  "elem_at a i = (if i < length a then Some (a ! i) else None)"

definition nullish :: "'a option \<Rightarrow> 'a \<Rightarrow> 'a" where
  "nullish v d = (case v of None \<Rightarrow> d | Some u \<Rightarrow> u)"

definition ToNumber :: "number option \<Rightarrow> number" where
  "ToNumber v = (case v of None \<Rightarrow> NaN | Some n \<Rightarrow> n)"

section \<open>Data model\<close>

text \<open>
  The types of the source. The fields of \<^verbatim>\<open>Highlight\<close> carry the prefix \<open>h_\<close>
  (\<open>id\<close> and \<open>text\<close> are taken in Isabelle), and the two lists of a group, the values
  of the source's \<^verbatim>\<open>groups\<close> map, the prefix \<open>g_\<close>. A parameter \<^verbatim>\<open>id\<close> or \<^verbatim>\<open>fields\<close>
  of the source is written \<open>id'\<close>, \<open>fields'\<close> for the same reason.
\<close>

record Highlight =
  h_id :: string
  h_x :: number
  h_y :: number
  h_width :: number
  h_height :: number
  h_text :: string

record OcrWord =
  content :: string
  polygon :: "number list"

record FieldMatch =
  word :: string
  coordinate :: "number \<times> number"
  groupId :: number

record ParsedFieldValues =
  name :: "FieldMatch list"
  dateOfBirth :: "FieldMatch list"
  address :: "FieldMatch list"
  causeOfDeath :: "FieldMatch list"

record Group =
  g_words :: "string list"
  g_ocrWords :: "OcrWord list"

record Page =
  width :: number
  height :: number

section \<open>Strings\<close>

text \<open>
  A template literal \<^verbatim>\<open>${n}\<close> prints a number. The printing of a finite number is
  the runtime's (\<^verbatim>\<open>Number::toString\<close>) and is a parameter \<open>ns\<close> of every function that
  builds a string from a number; NaN and the infinities print as fixed words.
\<close>

definition numberToString :: "(real \<Rightarrow> string) \<Rightarrow> number \<Rightarrow> string" where
  "numberToString ns n =
     (case n of NaN \<Rightarrow> ''NaN'' | NegInf \<Rightarrow> ''-Infinity'' | Fin r \<Rightarrow> ns r
      | PosInf \<Rightarrow> ''Infinity'')"

text \<open>\<^verbatim>\<open>Array.prototype.join\<close>.\<close>

fun join :: "string \<Rightarrow> string list \<Rightarrow> string" where
  "join sep [] = []"
| "join sep [s] = s"
| "join sep (s # t # ss) = s @ sep @ join sep (t # ss)"

text \<open>
  The decimal digits of an integer: what \<^verbatim>\<open>Number::toString\<close> prints for an
  integer-valued number of magnitude below \<open>10^21\<close>. It instantiates \<open>ns\<close> in the
  examples, whose numbers are all such integers.
\<close>

definition digit :: "nat \<Rightarrow> char" where
  "digit d = ''0123456789'' ! d"

function decimal :: "nat \<Rightarrow> string" where
  "decimal n = (if n < 10 then [digit n] else decimal (n div 10) @ [digit (n mod 10)])"
  by pat_completeness auto
termination
  by (relation "measure (\<lambda>n. n)") auto

definition integerToString :: "real \<Rightarrow> string" where
  "integerToString r =
     (if r < 0 then CHR ''-'' # decimal (nat (- \<lfloor>r\<rfloor>)) else decimal (nat \<lfloor>r\<rfloor>))"

section \<open>The line serializer\<close>

definition newline :: string where
  "newline = [CHR 0x0A]"

definition toTopLeftOcrLines :: "(real \<Rightarrow> string) \<Rightarrow> OcrWord list \<Rightarrow> string" where
  "toTopLeftOcrLines ns words =
     join newline
       (map (\<lambda>word.
          let x = nullish (elem_at (polygon word) 0) (Fin 0);
              y = nullish (elem_at (polygon word) 1) (Fin 0)
          in content word @ '':'' @ numberToString ns x @ '', '' @ numberToString ns y)
        words)"

section \<open>The union box of a group\<close>

text \<open>
  \<open>allXs\<close>, \<open>allYs\<close>, \<open>minX\<close>, \<open>maxX\<close>, \<open>minY\<close> and \<open>maxY\<close> are the local constants
  of \<^verbatim>\<open>wordsToHighlight\<close>. A read past the end of a polygon is \<^verbatim>\<open>undefined\<close>, which
  \<^verbatim>\<open>Math.min\<close> and \<^verbatim>\<open>Math.max\<close> read as NaN.
\<close>

definition allXs :: "OcrWord list \<Rightarrow> number option list" where
  "allXs groupWords =
     concat (map (\<lambda>word. [elem_at (polygon word) 0, elem_at (polygon word) 2,
                           elem_at (polygon word) 4, elem_at (polygon word) 6]) groupWords)"

definition allYs :: "OcrWord list \<Rightarrow> number option list" where
  "allYs groupWords =
     concat (map (\<lambda>word. [elem_at (polygon word) 1, elem_at (polygon word) 3,
                           elem_at (polygon word) 5, elem_at (polygon word) 7]) groupWords)"

definition minX :: "OcrWord list \<Rightarrow> number" where
  "minX groupWords = Math_min (map ToNumber (allXs groupWords))"

definition maxX :: "OcrWord list \<Rightarrow> number" where
  "maxX groupWords = Math_max (map ToNumber (allXs groupWords))"

definition minY :: "OcrWord list \<Rightarrow> number" where
  "minY groupWords = Math_min (map ToNumber (allYs groupWords))"

definition maxY :: "OcrWord list \<Rightarrow> number" where
  "maxY groupWords = Math_max (map ToNumber (allYs groupWords))"

definition wordsToHighlight ::
  "(real \<Rightarrow> number) \<Rightarrow> OcrWord list \<Rightarrow> number \<Rightarrow> number \<Rightarrow> string \<Rightarrow> string \<Rightarrow> Highlight" where
  "wordsToHighlight rnd groupWords pageWidth pageHeight text id' =
     \<lparr>h_id = id',
      h_x = js_div rnd (minX groupWords) pageWidth,
      h_y = js_div rnd (minY groupWords) pageHeight,
      h_width = js_div rnd (js_sub rnd (maxX groupWords) (minX groupWords)) pageWidth,
      h_height = js_div rnd (js_sub rnd (maxY groupWords) (minY groupWords)) pageHeight,
      h_text = text\<rparr>"

section \<open>The normalizer\<close>

definition normalizeHighlights :: "(real \<Rightarrow> number) \<Rightarrow> Highlight list \<Rightarrow> Highlight list" where
  "normalizeHighlights rnd highlights =
     map (\<lambda>highlight.
       let x = Math_max [Fin 0, Math_min [Fin 1, h_x highlight]];
           y = Math_max [Fin 0, Math_min [Fin 1, h_y highlight]];
           width = Math_max [Fin 0, Math_min [js_sub rnd (Fin 1) x, h_width highlight]];
           height = Math_max [Fin 0, Math_min [js_sub rnd (Fin 1) y, h_height highlight]]
       in highlight\<lparr>h_x := x, h_y := y, h_width := width, h_height := height\<rparr>)
     highlights"

section \<open>Coordinate resolution and grouping\<close>

text \<open>
  The key of a word in \<^verbatim>\<open>wordByTopLeft\<close> and the key a mention is looked up with.
\<close>

definition topLeftKey :: "(real \<Rightarrow> string) \<Rightarrow> OcrWord \<Rightarrow> string" where
  "topLeftKey ns ocrWord =
     numberToString ns (nullish (elem_at (polygon ocrWord) 0) (Fin 0)) @ '','' @
     numberToString ns (nullish (elem_at (polygon ocrWord) 1) (Fin 0))"

definition coordinateKey :: "(real \<Rightarrow> string) \<Rightarrow> FieldMatch \<Rightarrow> string" where
  "coordinateKey ns value =
     (let (x, y) = coordinate value in numberToString ns x @ '','' @ numberToString ns y)"

text \<open>
  \<^verbatim>\<open>new Map(words.map(...))\<close> enters the pairs in list order, a later pair replacing an
  earlier one with the same key. Only \<^verbatim>\<open>get\<close> is called on it, so the lookup is a
  partial function.
\<close>

definition wordByTopLeft :: "(real \<Rightarrow> string) \<Rightarrow> OcrWord list \<Rightarrow> (string \<rightharpoonup> OcrWord)" where
  "wordByTopLeft ns words =
     foldl (\<lambda>m word. m(topLeftKey ns word \<mapsto> word)) Map.empty words"

text \<open>
  \<^verbatim>\<open>groups\<close> is a \<^verbatim>\<open>Map\<close>, which iterates in insertion order: an association list,
  where \<^verbatim>\<open>get\<close> is \<open>map_of\<close> and \<^verbatim>\<open>set\<close> of a key that is absent appends. The body
  of the \<^verbatim>\<open>forEach\<close> is \<open>addValue\<close>; the two \<^verbatim>\<open>push\<close> calls on an existing group
  change that group in place.
\<close>

definition addValue ::
  "(real \<Rightarrow> string) \<Rightarrow> (string \<rightharpoonup> OcrWord) \<Rightarrow> (number \<times> Group) list \<Rightarrow> FieldMatch
   \<Rightarrow> (number \<times> Group) list" where
  "addValue ns byTopLeft groups value =
     (case byTopLeft (coordinateKey ns value) of
        None \<Rightarrow> groups
      | Some matchedWord \<Rightarrow>
          (case map_of groups (groupId value) of
             Some existing \<Rightarrow>
               AList.update (groupId value)
                 (existing\<lparr>g_words := g_words existing @ [word value],
                            g_ocrWords := g_ocrWords existing @ [matchedWord]\<rparr>) groups
           | None \<Rightarrow>
               groups @ [(groupId value,
                          \<lparr>g_words = [word value], g_ocrWords = [matchedWord]\<rparr>)]))"

definition collectGroups ::
  "(real \<Rightarrow> string) \<Rightarrow> FieldMatch list \<Rightarrow> OcrWord list \<Rightarrow> (number \<times> Group) list" where
  "collectGroups ns values words = foldl (addValue ns (wordByTopLeft ns words)) [] values"

text \<open>\<^verbatim>\<open>Boolean(highlight)\<close>: an object is truthy.\<close>

definition Boolean :: "Highlight \<Rightarrow> bool" where
  "Boolean highlight = True"

definition mapFieldListToHighlights ::
  "(real \<Rightarrow> number) \<Rightarrow> (real \<Rightarrow> string) \<Rightarrow> string \<Rightarrow> string \<Rightarrow> FieldMatch list \<Rightarrow> OcrWord list
   \<Rightarrow> number \<Rightarrow> number \<Rightarrow> Highlight list" where
  "mapFieldListToHighlights rnd ns fieldLabel fieldKey values words pageWidth pageHeight =
     filter Boolean
       (map (\<lambda>(groupId, group).
          wordsToHighlight rnd (g_ocrWords group) pageWidth pageHeight
            (fieldLabel @ '': '' @ join '' '' (g_words group))
            (''h-'' @ fieldKey @ ''-g-'' @ numberToString ns groupId))
        (collectGroups ns values words))"

definition mapFieldsToHighlights ::
  "(real \<Rightarrow> number) \<Rightarrow> (real \<Rightarrow> string) \<Rightarrow> ParsedFieldValues \<Rightarrow> OcrWord list \<Rightarrow> number \<Rightarrow> number
   \<Rightarrow> Highlight list" where
  "mapFieldsToHighlights rnd ns fields' words pageWidth pageHeight =
     (let highlights =
        mapFieldListToHighlights rnd ns ''Name'' ''name'' (name fields')
          words pageWidth pageHeight @
        mapFieldListToHighlights rnd ns ''Date of Birth'' ''dateOfBirth'' (dateOfBirth fields')
          words pageWidth pageHeight @
        mapFieldListToHighlights rnd ns ''Address'' ''address'' (address fields')
          words pageWidth pageHeight @
        mapFieldListToHighlights rnd ns ''Cause of Death'' ''causeOfDeath'' (causeOfDeath fields')
          words pageWidth pageHeight
      in normalizeHighlights rnd highlights)"

section \<open>The field extraction client and the orchestrator\<close>

text \<open>
  A value as \<^verbatim>\<open>JSON.parse\<close> returns it; an object is the list of its properties.
\<close>

datatype json =
  JNull | JBoolean bool | JNumber real | JString string | JArray "json list"
  | JObject "(string \<times> json) list"

text \<open>
  The schemas (zod): \<^verbatim>\<open>z.string()\<close>, \<^verbatim>\<open>z.number()\<close>, the pair
  \<^verbatim>\<open>z.tuple([z.number(), z.number()])\<close>, the item object, \<^verbatim>\<open>fieldItemSchema\<close> and
  \<^verbatim>\<open>parsedFieldsSchema\<close>. Each returns the parsed data, or \<open>None\<close> where
  \<^verbatim>\<open>safeParse\<close> reports no success. A key that is absent reads as \<^verbatim>\<open>undefined\<close>,
  which no schema here accepts; keys the schema does not name are dropped.
\<close>

definition z_string :: "json option \<Rightarrow> string option" where
  "z_string v = (case v of Some (JString s) \<Rightarrow> Some s | _ \<Rightarrow> None)"

definition z_number :: "json option \<Rightarrow> number option" where
  "z_number v = (case v of Some (JNumber r) \<Rightarrow> Some (Fin r) | _ \<Rightarrow> None)"

definition z_coordinate :: "json option \<Rightarrow> (number \<times> number) option" where
  "z_coordinate v =
     (case v of
        Some (JArray [a, b]) \<Rightarrow>
          (case (z_number (Some a), z_number (Some b)) of
             (Some x, Some y) \<Rightarrow> Some (x, y)
           | _ \<Rightarrow> None)
      | _ \<Rightarrow> None)"

definition z_fieldItem :: "json \<Rightarrow> FieldMatch option" where
  "z_fieldItem v =
     (case v of
        JObject properties \<Rightarrow>
          (case (z_string (map_of properties ''word''),
                 z_coordinate (map_of properties ''coordinate''),
                 z_number (map_of properties ''groupId'')) of
             (Some w, Some c, Some g) \<Rightarrow> Some \<lparr>word = w, coordinate = c, groupId = g\<rparr>
           | _ \<Rightarrow> None)
      | _ \<Rightarrow> None)"

definition fieldItemSchema :: "json option \<Rightarrow> FieldMatch list option" where
  "fieldItemSchema v =
     (case v of Some (JArray items) \<Rightarrow> those (map z_fieldItem items) | _ \<Rightarrow> None)"

definition parsedFieldsSchema :: "json \<Rightarrow> ParsedFieldValues option" where
  "parsedFieldsSchema v =
     (case v of
        JObject properties \<Rightarrow>
          (case (fieldItemSchema (map_of properties ''name''),
                 fieldItemSchema (map_of properties ''dateOfBirth''),
                 fieldItemSchema (map_of properties ''address''),
                 fieldItemSchema (map_of properties ''causeOfDeath'')) of
             (Some n, Some d, Some a, Some c) \<Rightarrow>
               Some \<lparr>name = n, dateOfBirth = d, address = a, causeOfDeath = c\<rparr>
           | _ \<Rightarrow> None)
      | _ \<Rightarrow> None)"

text \<open>
  An exception is a value \<open>Inl\<close>. \<^verbatim>\<open>JSON.parse\<close> is the runtime's and is a parameter:
  it returns the parsed value or throws a \<^verbatim>\<open>SyntaxError\<close>. The call of the extraction
  model is a parameter too: \<open>generateContent\<close> gives \<^verbatim>\<open>response.text\<close> (a string or
  \<^verbatim>\<open>undefined\<close>) for the request built from \<open>ocrLineText\<close>.
  \<^verbatim>\<open>extractFieldsFromGemini\<close> returns \<^verbatim>\<open>null\<close> (here \<open>Inr None\<close>), the parsed data,
  or throws what \<^verbatim>\<open>JSON.parse\<close> throws: the call \<^verbatim>\<open>JSON.parse(response.text)\<close> is not
  inside a \<^verbatim>\<open>try\<close>.
\<close>

datatype error = SyntaxError

definition extractFieldsFromGemini ::
  "(string \<Rightarrow> string option) \<Rightarrow> (string \<Rightarrow> error + json) \<Rightarrow> string
   \<Rightarrow> error + ParsedFieldValues option" where
  "extractFieldsFromGemini generateContent JSON_parse ocrLineText =
     (case generateContent ocrLineText of
        None \<Rightarrow> Inr None
      | Some text \<Rightarrow>
          if text = [] then Inr None
          else (case JSON_parse text of
                  Inl e \<Rightarrow> Inl e
                | Inr v \<Rightarrow>
                    (case parsedFieldsSchema v of
                       None \<Rightarrow> Inr None
                     | Some data \<Rightarrow> Inr (Some data))))"

text \<open>
  \<^verbatim>\<open>getOcrWordsAndPage\<close> reads the constant \<^verbatim>\<open>tmpAzureOcr\<close>; its first page and that
  page's words are the parameters \<open>page\<close> and \<open>words\<close>.
\<close>

definition runDeathCertificatePipeline ::
  "(real \<Rightarrow> number) \<Rightarrow> (real \<Rightarrow> string) \<Rightarrow> (string \<Rightarrow> string option)
   \<Rightarrow> (string \<Rightarrow> error + json) \<Rightarrow> Page \<Rightarrow> OcrWord list \<Rightarrow> error + Highlight list" where
  "runDeathCertificatePipeline rnd ns generateContent JSON_parse page words =
     (let ocrLineText = toTopLeftOcrLines ns words
      in case extractFieldsFromGemini generateContent JSON_parse ocrLineText of
           Inl e \<Rightarrow> Inl e
         | Inr None \<Rightarrow> Inr []
         | Inr (Some fields') \<Rightarrow>
             Inr (mapFieldsToHighlights rnd ns fields' words (width page) (height page)))"

section \<open>Auxiliary notions of the statements\<close>


text \<open>
  A word whose polygon is a quadrilateral as the OCR provider gives it: eight finite
  numbers. \<open>cornerXs\<close> and \<open>cornerYs\<close> are its four corner abscissas and ordinates.
\<close>

definition finite_number :: "number \<Rightarrow> bool" where
  "finite_number n = (case n of Fin r \<Rightarrow> True | _ \<Rightarrow> False)"

definition the_real :: "number \<Rightarrow> real" where
  "the_real n = (case n of Fin r \<Rightarrow> r | _ \<Rightarrow> 0)"

definition quadrilateral :: "OcrWord \<Rightarrow> bool" where
  "quadrilateral w = (length (polygon w) = 8 \<and> list_all finite_number (polygon w))"

definition cornerXs :: "OcrWord \<Rightarrow> real list" where
  "cornerXs w = map (\<lambda>i. the_real (polygon w ! i)) [0, 2, 4, 6]"

definition cornerYs :: "OcrWord \<Rightarrow> real list" where
  "cornerYs w = map (\<lambda>i. the_real (polygon w ! i)) [1, 3, 5, 7]"

text \<open>
  A mention resolves when its coordinate key is the top-left key of some OCR word.
\<close>

definition resolves :: "(real \<Rightarrow> string) \<Rightarrow> OcrWord list \<Rightarrow> FieldMatch \<Rightarrow> bool" where
  "resolves ns words value = (coordinateKey ns value \<in> topLeftKey ns ` set words)"

text \<open>The distinct elements of a list, in the order of their first appearance.\<close>

definition firstSeen :: "'a list \<Rightarrow> 'a list" where
  "firstSeen ks = rev (remdups (rev ks))"

text \<open>
  The line of one word in the serialized text, and \<^verbatim>\<open>text.split("\n")\<close>: the lines of
  a text.
\<close>

definition ocrLine :: "(real \<Rightarrow> string) \<Rightarrow> OcrWord \<Rightarrow> string" where
  "ocrLine ns w =
     content w @ '':'' @ numberToString ns (nullish (elem_at (polygon w) 0) (Fin 0)) @ '', '' @
     numberToString ns (nullish (elem_at (polygon w) 1) (Fin 0))"

fun splitLines :: "string \<Rightarrow> string list" where
  "splitLines [] = [[]]"
| "splitLines (c # s) =
     (if c = CHR 0x0A then [] # splitLines s
      else (case splitLines s of [] \<Rightarrow> [[c]] | l # ls \<Rightarrow> (c # l) # ls))"

text \<open>
  What the statements ask of the rounding: it is monotone (so never NaN) and exact at 0
  and at 1, as binary64 round-to-nearest is. \<open>exact\<close> is the rounding without error; it
  evaluates the examples.
\<close>

definition rounding :: "(real \<Rightarrow> number) \<Rightarrow> bool" where
  "rounding rnd =
     ((\<forall>a b. a \<le> b \<longrightarrow> js_le (rnd a) (rnd b)) \<and> rnd 0 = Fin 0 \<and> rnd 1 = Fin 1)"

definition exact :: "real \<Rightarrow> number" where
  "exact r = Fin r"


section \<open>Example data\<close>

text \<open>
  Two words side by side, a third word with the top-left corner of the first, and a
  list of three mentions of one group whose second coordinate is the corner of no word.
\<close>

definition word_JOHN :: OcrWord where
  "word_JOHN = \<lparr>content = ''JOHN'', polygon = map Fin [10, 20, 60, 20, 60, 40, 10, 40]\<rparr>"

definition word_DOE :: OcrWord where
  "word_DOE = \<lparr>content = ''DOE'', polygon = map Fin [70, 20, 120, 20, 120, 40, 70, 40]\<rparr>"

definition word_SMITH :: OcrWord where
  "word_SMITH = \<lparr>content = ''SMITH'', polygon = map Fin [10, 20, 75, 20, 75, 40, 10, 40]\<rparr>"

definition mentions_JOHN_X_DOE :: "FieldMatch list" where
  "mentions_JOHN_X_DOE =
     [\<lparr>word = ''JOHN'', coordinate = (Fin 10, Fin 20), groupId = Fin 1\<rparr>,
      \<lparr>word = ''X'', coordinate = (Fin 999, Fin 999), groupId = Fin 1\<rparr>,
      \<lparr>word = ''DOE'', coordinate = (Fin 70, Fin 20), groupId = Fin 1\<rparr>]"

text \<open>
  Three mentions of two groups: group 1 appears first, with a coordinate that is the
  corner of no word; group 2 is the first to resolve.
\<close>

definition mentions_late_group :: "FieldMatch list" where
  "mentions_late_group =
     [\<lparr>word = ''X'', coordinate = (Fin 999, Fin 999), groupId = Fin 1\<rparr>,
      \<lparr>word = ''JOHN'', coordinate = (Fin 10, Fin 20), groupId = Fin 2\<rparr>,
      \<lparr>word = ''DOE'', coordinate = (Fin 70, Fin 20), groupId = Fin 1\<rparr>]"

text \<open>
  A word with no polygon entry, whose key is \<open>0,0\<close> and whose corner reads are all
  \<^verbatim>\<open>undefined\<close>, and a mention at \<open>[0,0]\<close>.
\<close>

definition word_no_polygon :: OcrWord where
  "word_no_polygon = \<lparr>content = ''X'', polygon = []\<rparr>"

definition mention_origin :: FieldMatch where
  "mention_origin = \<lparr>word = ''X'', coordinate = (Fin 0, Fin 0), groupId = Fin 1\<rparr>"

section \<open>Evaluating the examples\<close>

text \<open>The defining equations that evaluate the pipeline on the example data.\<close>

lemmas example_simps =
  collectGroups_def addValue_def wordByTopLeft_def topLeftKey_def coordinateKey_def
  numberToString_def integerToString_def digit_def elem_at_def nullish_def
  word_JOHN_def word_DOE_def mentions_JOHN_X_DOE_def

lemmas geometry_simps =
  exact_def wordsToHighlight_def minX_def maxX_def minY_def maxY_def allXs_def allYs_def ToNumber_def
  Math_min_def Math_max_def min2_def max2_def

section \<open>Properties of the rounding and of the normalizer\<close>

lemma rounding_exact: "rounding exact"
  by (simp add: rounding_def exact_def)

lemma rounding_mono: "rounding rnd \<Longrightarrow> a \<le> b \<Longrightarrow> js_le (rnd a) (rnd b)"
  by (simp add: rounding_def)


lemma rounding_nonneg:
  assumes "rounding rnd" and "0 \<le> r"
  shows "js_le (Fin 0) (rnd r)"
proof -
  from assms have "js_le (rnd 0) (rnd r)" by (rule rounding_mono)
  with assms(1) show ?thesis by (simp add: rounding_def)
qed







text \<open>
  The exact sum \<open>x + width\<close> is not bounded by 1: where the difference \<open>1 - x\<close> rounds
  upwards (as binary64 does for \<open>x\<close> the double nearest 0.1: the computed difference is
  the double nearest 0.9, above the exact one), a wide box gets that rounded difference
  as its width.
\<close>

lemma exact_sum_above_one:
  assumes "0 \<le> a" and "a \<le> 1" and "rnd (1 - a) = Fin b" and "1 - a < b"
  shows "map h_x (normalizeHighlights rnd
           [\<lparr>h_id = i, h_x = Fin a, h_y = Fin 0, h_width = PosInf, h_height = Fin 0,
             h_text = t\<rparr>]) = [Fin a] \<and>
         map h_width (normalizeHighlights rnd
           [\<lparr>h_id = i, h_x = Fin a, h_y = Fin 0, h_width = PosInf, h_height = Fin 0,
             h_text = t\<rparr>]) = [Fin b] \<and>
         1 < a + b"
  using assms
  by (auto simp: normalizeHighlights_def Let_def Math_max_def Math_min_def min2_def max2_def)

text \<open>
  Claim C9. The normalizer is total and drops nothing: the output has the length and order
  of the input, and the \<open>id\<close> and \<open>text\<close> of each output highlight are those of the input
  highlight at the same position.
\<close>

theorem C9_frame:
  "length (normalizeHighlights rnd highlights) = length highlights \<and>
   map h_id (normalizeHighlights rnd highlights) = map h_id highlights \<and>
   map h_text (normalizeHighlights rnd highlights) = map h_text highlights"
  by (simp add: normalizeHighlights_def Let_def comp_def)

section \<open>The union box\<close>

lemma min2_Fin [simp]: "min2 (Fin a) (Fin b) = Fin (min a b)"
  by (simp add: min2_def min_def)

lemma max2_Fin [simp]: "max2 (Fin a) (Fin b) = Fin (max a b)"
  by (simp add: max2_def max_def)

lemma foldl_min2_Fin: "foldl min2 (Fin a) (map Fin rs) = Fin (fold min rs a)"
  by (induction rs arbitrary: a) (simp_all add: min.commute)

lemma foldl_max2_Fin: "foldl max2 (Fin a) (map Fin rs) = Fin (fold max rs a)"
  by (induction rs arbitrary: a) (simp_all add: max.commute)

lemma Math_min_Fin: "rs \<noteq> [] \<Longrightarrow> Math_min (map Fin rs) = Fin (Min (set rs))"
proof (cases rs)
  case Nil
  assume "rs \<noteq> []"
  with Nil show ?thesis by simp
next
  case (Cons r rs')
  have "Math_min (map Fin (r # rs')) = foldl min2 (Fin r) (map Fin rs')"
    by (simp add: Math_min_def min2_def)
  also have "\<dots> = Fin (fold min rs' r)" by (rule foldl_min2_Fin)
  also have "fold min rs' r = Min (set (r # rs'))" by (rule Min.set_eq_fold [symmetric])
  finally show ?thesis using Cons by simp
qed

lemma Math_max_Fin: "rs \<noteq> [] \<Longrightarrow> Math_max (map Fin rs) = Fin (Max (set rs))"
proof (cases rs)
  case Nil
  assume "rs \<noteq> []"
  with Nil show ?thesis by simp
next
  case (Cons r rs')
  have "Math_max (map Fin (r # rs')) = foldl max2 (Fin r) (map Fin rs')"
    by (simp add: Math_max_def max2_def)
  also have "\<dots> = Fin (fold max rs' r)" by (rule foldl_max2_Fin)
  also have "fold max rs' r = Max (set (r # rs'))" by (rule Max.set_eq_fold [symmetric])
  finally show ?thesis using Cons by simp
qed

lemma quadrilateral_read:
  assumes "quadrilateral w" and "i < 8"
  shows "ToNumber (elem_at (polygon w) i) = Fin (the_real (polygon w ! i))"
proof -
  from assms have len: "i < length (polygon w)" by (simp add: quadrilateral_def)
  with assms(1) have "finite_number (polygon w ! i)"
    by (simp add: quadrilateral_def list_all_length)
  then have "polygon w ! i = Fin (the_real (polygon w ! i))"
    by (cases "polygon w ! i") (simp_all add: finite_number_def the_real_def)
  with len show ?thesis by (simp add: ToNumber_def elem_at_def)
qed

lemma allXs_Cons: "allXs (w # ws) = allXs [w] @ allXs ws"
  by (simp add: allXs_def)

lemma allYs_Cons: "allYs (w # ws) = allYs [w] @ allYs ws"
  by (simp add: allYs_def)

lemma allXs_single:
  assumes q: "quadrilateral w"
  shows "map ToNumber (allXs [w]) = map Fin (cornerXs w)"
  using quadrilateral_read [OF q, of 0] quadrilateral_read [OF q, of 2]
    quadrilateral_read [OF q, of 4] quadrilateral_read [OF q, of 6]
  by (simp add: allXs_def cornerXs_def)

lemma allYs_single:
  assumes q: "quadrilateral w"
  shows "map ToNumber (allYs [w]) = map Fin (cornerYs w)"
  using quadrilateral_read [OF q, of 1] quadrilateral_read [OF q, of 3]
    quadrilateral_read [OF q, of 5] quadrilateral_read [OF q, of 7]
  by (simp add: allYs_def cornerYs_def)

lemma allXs_quadrilateral:
  "\<forall>w\<in>set ws. quadrilateral w \<Longrightarrow>
   map ToNumber (allXs ws) = map Fin (concat (map cornerXs ws))"
proof (induction ws)
  case Nil
  show ?case by (simp add: allXs_def)
next
  case (Cons w ws)
  from Cons.prems have q: "quadrilateral w" by simp
  from Cons have "map ToNumber (allXs ws) = map Fin (concat (map cornerXs ws))" by simp
  then show ?case
    by (simp add: allXs_Cons [of w ws] allXs_single [OF q])
qed

lemma allYs_quadrilateral:
  "\<forall>w\<in>set ws. quadrilateral w \<Longrightarrow>
   map ToNumber (allYs ws) = map Fin (concat (map cornerYs ws))"
proof (induction ws)
  case Nil
  show ?case by (simp add: allYs_def)
next
  case (Cons w ws)
  from Cons.prems have q: "quadrilateral w" by simp
  from Cons have "map ToNumber (allYs ws) = map Fin (concat (map cornerYs ws))" by simp
  then show ?case
    by (simp add: allYs_Cons [of w ws] allYs_single [OF q])
qed

lemma corners_nonempty:
  "ws \<noteq> [] \<Longrightarrow> concat (map cornerXs ws) \<noteq> [] \<and> concat (map cornerYs ws) \<noteq> []"
  by (cases ws) (simp_all add: cornerXs_def cornerYs_def)

lemma union_box:
  assumes "groupWords \<noteq> []" and "\<forall>w\<in>set groupWords. quadrilateral w"
  shows "minX groupWords = Fin (Min (\<Union>w\<in>set groupWords. set (cornerXs w))) \<and>
         maxX groupWords = Fin (Max (\<Union>w\<in>set groupWords. set (cornerXs w))) \<and>
         minY groupWords = Fin (Min (\<Union>w\<in>set groupWords. set (cornerYs w))) \<and>
         maxY groupWords = Fin (Max (\<Union>w\<in>set groupWords. set (cornerYs w)))"
proof -
  from corners_nonempty [OF assms(1)]
  have nx: "concat (map cornerXs groupWords) \<noteq> []"
    and ny: "concat (map cornerYs groupWords) \<noteq> []" by simp_all
  have xs: "map ToNumber (allXs groupWords) = map Fin (concat (map cornerXs groupWords))"
    by (rule allXs_quadrilateral [OF assms(2)])
  have ys: "map ToNumber (allYs groupWords) = map Fin (concat (map cornerYs groupWords))"
    by (rule allYs_quadrilateral [OF assms(2)])
  have "minX groupWords = Fin (Min (set (concat (map cornerXs groupWords))))"
    unfolding minX_def xs by (rule Math_min_Fin [OF nx])
  moreover have "maxX groupWords = Fin (Max (set (concat (map cornerXs groupWords))))"
    unfolding maxX_def xs by (rule Math_max_Fin [OF nx])
  moreover have "minY groupWords = Fin (Min (set (concat (map cornerYs groupWords))))"
    unfolding minY_def ys by (rule Math_min_Fin [OF ny])
  moreover have "maxY groupWords = Fin (Max (set (concat (map cornerYs groupWords))))"
    unfolding maxY_def ys by (rule Math_max_Fin [OF ny])
  ultimately show ?thesis by simp
qed

text \<open>
  Claim C3. For a non-empty group of words, each with a quadrilateral of eight finite
  numbers, the box computed before normalization is the union box: \<open>minX\<close> (resp.
  \<open>minY\<close>) is the least of the corner abscissas (resp. ordinates) of all member words,
  \<open>maxX\<close> and \<open>maxY\<close> the greatest. Nothing is assumed on how the words lie (disjoint,
  overlapping, far apart). The highlight returned holds this box divided by the page
  size: with the exact quotients where nothing rounds, and in general with the
  differences and quotients as the code computes them.
\<close>

theorem C3_union_box:
  assumes "groupWords \<noteq> []" and "\<forall>w\<in>set groupWords. quadrilateral w"
  shows "minX groupWords = Fin (Min (\<Union>w\<in>set groupWords. set (cornerXs w))) \<and>
         maxX groupWords = Fin (Max (\<Union>w\<in>set groupWords. set (cornerXs w))) \<and>
         minY groupWords = Fin (Min (\<Union>w\<in>set groupWords. set (cornerYs w))) \<and>
         maxY groupWords = Fin (Max (\<Union>w\<in>set groupWords. set (cornerYs w))) \<and>
         (pw \<noteq> 0 \<and> ph \<noteq> 0 \<longrightarrow>
          wordsToHighlight exact groupWords (Fin pw) (Fin ph) text id' =
            \<lparr>h_id = id',
             h_x = Fin (Min (\<Union>w\<in>set groupWords. set (cornerXs w)) / pw),
             h_y = Fin (Min (\<Union>w\<in>set groupWords. set (cornerYs w)) / ph),
             h_width = Fin ((Max (\<Union>w\<in>set groupWords. set (cornerXs w)) -
                             Min (\<Union>w\<in>set groupWords. set (cornerXs w))) / pw),
             h_height = Fin ((Max (\<Union>w\<in>set groupWords. set (cornerYs w)) -
                              Min (\<Union>w\<in>set groupWords. set (cornerYs w))) / ph),
             h_text = text\<rparr>) \<and>
         wordsToHighlight rnd groupWords pageWidth pageHeight text id' =
           \<lparr>h_id = id',
            h_x = js_div rnd (Fin (Min (\<Union>w\<in>set groupWords. set (cornerXs w)))) pageWidth,
            h_y = js_div rnd (Fin (Min (\<Union>w\<in>set groupWords. set (cornerYs w)))) pageHeight,
            h_width =
              js_div rnd (js_sub rnd (Fin (Max (\<Union>w\<in>set groupWords. set (cornerXs w))))
                                     (Fin (Min (\<Union>w\<in>set groupWords. set (cornerXs w)))))
                pageWidth,
            h_height =
              js_div rnd (js_sub rnd (Fin (Max (\<Union>w\<in>set groupWords. set (cornerYs w))))
                                     (Fin (Min (\<Union>w\<in>set groupWords. set (cornerYs w)))))
                pageHeight,
            h_text = text\<rparr>"
  using union_box [OF assms] by (simp add: wordsToHighlight_def exact_def)

theorem C3_union_box_witness:
  "[\<lparr>content = ''JOHN'', polygon = map Fin [10, 20, 60, 20, 60, 40, 10, 40]\<rparr>,
    \<lparr>content = ''DOE'', polygon = map Fin [300, 200, 350, 205, 350, 230, 300, 225]\<rparr>] \<noteq> [] \<and>
   quadrilateral \<lparr>content = ''JOHN'', polygon = map Fin [10, 20, 60, 20, 60, 40, 10, 40]\<rparr> \<and>
   quadrilateral
     \<lparr>content = ''DOE'', polygon = map Fin [300, 200, 350, 205, 350, 230, 300, 225]\<rparr> \<and>
   minX [\<lparr>content = ''JOHN'', polygon = map Fin [10, 20, 60, 20, 60, 40, 10, 40]\<rparr>,
      \<lparr>content = ''DOE'', polygon = map Fin [300, 200, 350, 205, 350, 230, 300, 225]\<rparr>] = Fin 10 \<and>
   maxX [\<lparr>content = ''JOHN'', polygon = map Fin [10, 20, 60, 20, 60, 40, 10, 40]\<rparr>,
      \<lparr>content = ''DOE'', polygon = map Fin [300, 200, 350, 205, 350, 230, 300, 225]\<rparr>] = Fin 350 \<and>
   minY [\<lparr>content = ''JOHN'', polygon = map Fin [10, 20, 60, 20, 60, 40, 10, 40]\<rparr>,
      \<lparr>content = ''DOE'', polygon = map Fin [300, 200, 350, 205, 350, 230, 300, 225]\<rparr>] = Fin 20 \<and>
   maxY [\<lparr>content = ''JOHN'', polygon = map Fin [10, 20, 60, 20, 60, 40, 10, 40]\<rparr>,
      \<lparr>content = ''DOE'', polygon = map Fin [300, 200, 350, 205, 350, 230, 300, 225]\<rparr>] = Fin 230 \<and>
   wordsToHighlight exact
     [\<lparr>content = ''JOHN'', polygon = map Fin [10, 20, 60, 20, 60, 40, 10, 40]\<rparr>,
      \<lparr>content = ''DOE'', polygon = map Fin [300, 200, 350, 205, 350, 230, 300, 225]\<rparr>]
     (Fin 1000) (Fin 500) ''Name: JOHN DOE'' ''h-name-g-1'' =
     \<lparr>h_id = ''h-name-g-1'', h_x = Fin (1 / 100), h_y = Fin (1 / 25),
      h_width = Fin (17 / 50), h_height = Fin (21 / 50), h_text = ''Name: JOHN DOE''\<rparr>"
  using C3_union_box
    [of "[\<lparr>content = ''JOHN'', polygon = map Fin [10, 20, 60, 20, 60, 40, 10, 40]\<rparr>,
          \<lparr>content = ''DOE'', polygon = map Fin [300, 200, 350, 205, 350, 230, 300, 225]\<rparr>]"
        1000 500 "''Name: JOHN DOE''" "''h-name-g-1''" exact "Fin 1000" "Fin 500"]
  by (simp add: quadrilateral_def finite_number_def cornerXs_def cornerYs_def the_real_def
      exact_def)

section \<open>Resolution and grouping\<close>

lemma wordByTopLeft_Nil: "wordByTopLeft ns [] = Map.empty"
  by (simp add: wordByTopLeft_def)

lemma wordByTopLeft_snoc:
  "wordByTopLeft ns (ws @ [w]) = (wordByTopLeft ns ws)(topLeftKey ns w \<mapsto> w)"
  by (simp add: wordByTopLeft_def)

lemma wordByTopLeft_dom: "dom (wordByTopLeft ns ws) = topLeftKey ns ` set ws"
proof (induction ws rule: rev_induct)
  case Nil
  show ?case by (simp add: wordByTopLeft_Nil)
next
  case (snoc w ws)
  have "dom (wordByTopLeft ns (ws @ [w])) =
      insert (topLeftKey ns w) (dom (wordByTopLeft ns ws))"
    unfolding wordByTopLeft_snoc by (simp only: dom_fun_upd option.distinct if_False)
  with snoc show ?case by simp
qed

lemma wordByTopLeft_Some:
  "wordByTopLeft ns ws k = Some w \<Longrightarrow> w \<in> set ws \<and> topLeftKey ns w = k"
  by (induction ws rule: rev_induct)
     (auto simp: wordByTopLeft_Nil wordByTopLeft_snoc split: if_splits)

lemma wordByTopLeft_last:
  "\<forall>v\<in>set post. topLeftKey ns v \<noteq> topLeftKey ns w \<Longrightarrow>
   wordByTopLeft ns (pre @ w # post) (topLeftKey ns w) = Some w"
proof (induction post rule: rev_induct)
  case Nil
  show ?case using wordByTopLeft_snoc [of ns pre w] by simp
next
  case (snoc v post)
  then have "wordByTopLeft ns (pre @ w # post) (topLeftKey ns w) = Some w"
    and "topLeftKey ns v \<noteq> topLeftKey ns w" by simp_all
  then show ?case using wordByTopLeft_snoc [of ns "pre @ w # post" v] by simp
qed

lemma resolves_iff:
  "resolves ns ws v \<longleftrightarrow> wordByTopLeft ns ws (coordinateKey ns v) \<noteq> None"
  using wordByTopLeft_dom [of ns ws] by (auto simp: resolves_def dom_def)

lemma collectGroups_Nil: "collectGroups ns [] ws = []"
  by (simp add: collectGroups_def)

lemma collectGroups_snoc:
  "collectGroups ns (vs @ [v]) ws =
   addValue ns (wordByTopLeft ns ws) (collectGroups ns vs ws) v"
  by (simp add: collectGroups_def)

lemma addValue_unresolved:
  "\<not> resolves ns ws v \<Longrightarrow> addValue ns (wordByTopLeft ns ws) groups v = groups"
  by (simp add: resolves_iff addValue_def)

lemma collectGroups_filter:
  "collectGroups ns values ws = collectGroups ns (filter (resolves ns ws) values) ws"
proof (induction "values" rule: rev_induct)
  case Nil
  show ?case by simp
next
  case (snoc v vs)
  show ?case
  proof (cases "resolves ns ws v")
    case True
    with snoc show ?thesis by (simp add: collectGroups_snoc)
  next
    case False
    with snoc show ?thesis by (simp add: collectGroups_snoc addValue_unresolved)
  qed
qed

lemma firstSeen_Nil: "firstSeen [] = []"
  by (simp add: firstSeen_def)

lemma firstSeen_snoc:
  "firstSeen (ks @ [k]) = (if k \<in> set ks then firstSeen ks else firstSeen ks @ [k])"
  by (simp add: firstSeen_def)

lemma set_firstSeen: "set (firstSeen ks) = set ks"
  by (simp add: firstSeen_def)

lemma addValue_keys:
  "map fst (addValue ns m groups v) =
     (if m (coordinateKey ns v) = None \<or> groupId v \<in> set (map fst groups)
      then map fst groups else map fst groups @ [groupId v])"
proof (cases "m (coordinateKey ns v)")
  case None
  then show ?thesis by (simp add: addValue_def)
next
  case (Some matchedWord)
  show ?thesis
  proof (cases "map_of groups (groupId v)")
    case None
    then have "groupId v \<notin> set (map fst groups)" by (simp add: map_of_eq_None_iff)
    with None Some show ?thesis by (simp add: addValue_def)
  next
    case (Some existing)
    then have "groupId v \<in> set (map fst groups)"
      by (metis map_of_eq_None_iff option.distinct(1) set_map)
    with Some \<open>m (coordinateKey ns v) = Some matchedWord\<close> show ?thesis
      by (simp add: addValue_def update_keys)
  qed
qed

lemma collectGroups_keys:
  "map fst (collectGroups ns values ws) =
   firstSeen (map groupId (filter (resolves ns ws) values))"
proof (induction "values" rule: rev_induct)
  case Nil
  show ?case by (simp add: collectGroups_Nil firstSeen_Nil)
next
  case (snoc v vs)
  show ?case
  proof (cases "resolves ns ws v")
    case False
    with snoc show ?thesis by (simp add: collectGroups_snoc addValue_unresolved)
  next
    case True
    then have "wordByTopLeft ns ws (coordinateKey ns v) \<noteq> None" by (simp add: resolves_iff)
    moreover have "set (map fst (collectGroups ns vs ws)) =
        set (map groupId (filter (resolves ns ws) vs))"
      unfolding snoc by (rule set_firstSeen)
    ultimately show ?thesis
      using True snoc
      by (simp only: collectGroups_snoc addValue_keys firstSeen_snoc filter_append filter.simps
            map_append list.map if_True if_False append_Nil2 simp_thms)
  qed
qed

lemma mapFieldListToHighlights_groups:
  "mapFieldListToHighlights rnd ns fieldLabel fieldKey values words pageWidth pageHeight =
     map (\<lambda>(groupId, group).
          wordsToHighlight rnd (g_ocrWords group) pageWidth pageHeight
            (fieldLabel @ '': '' @ join '' '' (g_words group))
            (''h-'' @ fieldKey @ ''-g-'' @ numberToString ns groupId))
        (collectGroups ns values words)"
  by (simp add: mapFieldListToHighlights_def Boolean_def)

lemma mapFieldListToHighlights_ids:
  "map h_id (mapFieldListToHighlights rnd ns fieldLabel fieldKey values words pageWidth pageHeight) =
   map (\<lambda>g. ''h-'' @ fieldKey @ ''-g-'' @ numberToString ns g)
     (firstSeen (map groupId (filter (resolves ns words) values)))"
proof -
  have "map h_id (mapFieldListToHighlights rnd ns fieldLabel fieldKey values words pageWidth pageHeight)
      = map (\<lambda>g. ''h-'' @ fieldKey @ ''-g-'' @ numberToString ns g)
          (map fst (collectGroups ns values words))"
    by (simp add: mapFieldListToHighlights_groups wordsToHighlight_def comp_def case_prod_beta)
  then show ?thesis by (simp only: collectGroups_keys)
qed

lemma set_update_subset: "set (AList.update k v al) \<subseteq> insert (k, v) (set al)"
  by (induction al) auto

lemma addValue_groups:
  assumes inv: "\<forall>(k, g)\<in>set groups. g_ocrWords g \<noteq> [] \<and>
                  length (g_words g) = length (g_ocrWords g) \<and> set (g_ocrWords g) \<subseteq> W"
    and m: "\<And>key w. m key = Some w \<Longrightarrow> w \<in> W"
  shows "\<forall>(k, g)\<in>set (addValue ns m groups v). g_ocrWords g \<noteq> [] \<and>
           length (g_words g) = length (g_ocrWords g) \<and> set (g_ocrWords g) \<subseteq> W"
proof (cases "m (coordinateKey ns v)")
  case None
  with inv show ?thesis by (simp add: addValue_def)
next
  case (Some matchedWord)
  then have mw: "matchedWord \<in> W" by (rule m)
  show ?thesis
  proof (cases "map_of groups (groupId v)")
    case None
    with Some inv mw show ?thesis by (simp add: addValue_def)
  next
    case (Some existing)
    then have "(groupId v, existing) \<in> set groups" by (rule map_of_SomeD)
    with inv have ex: "g_ocrWords existing \<noteq> [] \<and>
        length (g_words existing) = length (g_ocrWords existing) \<and>
        set (g_ocrWords existing) \<subseteq> W" by auto
    let ?g = "existing\<lparr>g_words := g_words existing @ [word v],
                        g_ocrWords := g_ocrWords existing @ [matchedWord]\<rparr>"
    have "set (AList.update (groupId v) ?g groups) \<subseteq> insert (groupId v, ?g) (set groups)"
      by (rule set_update_subset)
    moreover have "g_ocrWords ?g \<noteq> [] \<and> length (g_words ?g) = length (g_ocrWords ?g) \<and>
        set (g_ocrWords ?g) \<subseteq> W"
      using ex mw by simp
    ultimately have "\<forall>(k, g)\<in>set (AList.update (groupId v) ?g groups).
        g_ocrWords g \<noteq> [] \<and> length (g_words g) = length (g_ocrWords g) \<and>
        set (g_ocrWords g) \<subseteq> W"
      using inv by blast
    with Some \<open>m (coordinateKey ns v) = Some matchedWord\<close> show ?thesis
      by (simp add: addValue_def)
  qed
qed

lemma collectGroups_groups:
  "\<forall>(k, g)\<in>set (collectGroups ns values words). g_ocrWords g \<noteq> [] \<and>
     length (g_words g) = length (g_ocrWords g) \<and> set (g_ocrWords g) \<subseteq> set words"
proof (induction "values" rule: rev_induct)
  case Nil
  show ?case by (simp add: collectGroups_Nil)
next
  case (snoc v vs)
  show ?case
    unfolding collectGroups_snoc
    by (rule addValue_groups [OF snoc]) (simp add: wordByTopLeft_Some)
qed

lemma box_ordered:
  assumes "groupWords \<noteq> []" and "\<forall>w\<in>set groupWords. quadrilateral w"
  shows "\<exists>a b c d. minX groupWords = Fin a \<and> maxX groupWords = Fin b \<and> a \<le> b \<and>
                   minY groupWords = Fin c \<and> maxY groupWords = Fin d \<and> c \<le> d"
proof -
  let ?X = "\<Union>w\<in>set groupWords. set (cornerXs w)"
  let ?Y = "\<Union>w\<in>set groupWords. set (cornerYs w)"
  from assms(1) obtain w where w: "w \<in> set groupWords" by (cases groupWords) auto
  have fX: "finite ?X" and fY: "finite ?Y" by simp_all
  from w have "the_real (polygon w ! 0) \<in> ?X" by (auto simp: cornerXs_def)
  with fX have "Min ?X \<le> the_real (polygon w ! 0)" "the_real (polygon w ! 0) \<le> Max ?X"
    by (simp_all only: Min_le Max_ge)
  then have x: "Min ?X \<le> Max ?X" by (rule order_trans)
  from w have "the_real (polygon w ! 1) \<in> ?Y" by (auto simp: cornerYs_def)
  with fY have "Min ?Y \<le> the_real (polygon w ! 1)" "the_real (polygon w ! 1) \<le> Max ?Y"
    by (simp_all only: Min_le Max_ge)
  then have y: "Min ?Y \<le> Max ?Y" by (rule order_trans)
  from union_box [OF assms] x y show ?thesis by blast
qed

lemma js_div_nonneg:
  assumes "rounding rnd" and "0 < pw" and "js_le (Fin 0) v"
  shows "js_le (Fin 0) (js_div rnd v (Fin pw))"
proof (cases v)
  case (Fin c)
  with assms(3) have "0 \<le> c / pw" using assms(2) by simp
  from rounding_nonneg [OF assms(1) this] Fin assms(2) show ?thesis by simp
qed (use assms in simp_all)


text \<open>
  Claim C10, as amended. Every group handed to the box computation is non-empty (and
  holds as many mention words as OCR words): a group is created with one resolved word
  and only grows, so the minima and maxima range over non-empty lists. When every OCR
  word has a quadrilateral of eight finite numbers, the box of every group has
  \<open>minX \<le> maxX\<close> and \<open>minY \<le> maxY\<close>; when moreover the page width and height are
  positive, every highlight has a width and a height that are at least 0 before
  clamping.
\<close>

theorem C10_groups_nonempty:
  "(\<forall>(k, g)\<in>set (collectGroups ns values words).
      g_ocrWords g \<noteq> [] \<and> length (g_words g) = length (g_ocrWords g)) \<and>
   ((\<forall>w\<in>set words. quadrilateral w) \<longrightarrow>
      (\<forall>(k, g)\<in>set (collectGroups ns values words).
         js_le (minX (g_ocrWords g)) (maxX (g_ocrWords g)) \<and>
         js_le (minY (g_ocrWords g)) (maxY (g_ocrWords g))) \<and>
      (rounding rnd \<and> 0 < pw \<and> 0 < ph \<longrightarrow>
         (\<forall>h\<in>set (mapFieldListToHighlights rnd ns fieldLabel fieldKey values words
                      (Fin pw) (Fin ph)).
            js_le (Fin 0) (h_width h) \<and> js_le (Fin 0) (h_height h))))"
proof -
  note inv = collectGroups_groups [of ns "values" words]
  have first: "\<forall>(k, g)\<in>set (collectGroups ns values words).
      g_ocrWords g \<noteq> [] \<and> length (g_words g) = length (g_ocrWords g)"
    using inv by blast
  have box: "\<exists>a b c d. minX (g_ocrWords g) = Fin a \<and> maxX (g_ocrWords g) = Fin b \<and> a \<le> b \<and>
                   minY (g_ocrWords g) = Fin c \<and> maxY (g_ocrWords g) = Fin d \<and> c \<le> d"
    if q: "\<forall>w\<in>set words. quadrilateral w" and g: "(k, g) \<in> set (collectGroups ns values words)"
    for k g
  proof -
    from inv g have "g_ocrWords g \<noteq> []" and "set (g_ocrWords g) \<subseteq> set words" by auto
    with q show ?thesis by (intro box_ordered) auto
  qed
  have second: "\<forall>(k, g)\<in>set (collectGroups ns values words).
         js_le (minX (g_ocrWords g)) (maxX (g_ocrWords g)) \<and>
         js_le (minY (g_ocrWords g)) (maxY (g_ocrWords g))"
    if q: "\<forall>w\<in>set words. quadrilateral w"
  proof (clarify)
    fix k g assume "(k, g) \<in> set (collectGroups ns values words)"
    from box [OF q this] show "js_le (minX (g_ocrWords g)) (maxX (g_ocrWords g)) \<and>
         js_le (minY (g_ocrWords g)) (maxY (g_ocrWords g))" by auto
  qed
  have third: "\<forall>h\<in>set (mapFieldListToHighlights rnd ns fieldLabel fieldKey values words
                 (Fin pw) (Fin ph)).
            js_le (Fin 0) (h_width h) \<and> js_le (Fin 0) (h_height h)"
    if q: "\<forall>w\<in>set words. quadrilateral w" and r: "rounding rnd" and pos: "0 < pw" "0 < ph"
  proof
    fix h
    assume "h \<in> set (mapFieldListToHighlights rnd ns fieldLabel fieldKey values words
        (Fin pw) (Fin ph))"
    then obtain k g where g: "(k, g) \<in> set (collectGroups ns values words)"
      and h: "h = wordsToHighlight rnd (g_ocrWords g) (Fin pw) (Fin ph)
            (fieldLabel @ '': '' @ join '' '' (g_words g))
            (''h-'' @ fieldKey @ ''-g-'' @ numberToString ns k)"
      by (auto simp: mapFieldListToHighlights_groups)
    from box [OF q g] obtain a b c d where
      box: "minX (g_ocrWords g) = Fin a" "maxX (g_ocrWords g) = Fin b" "a \<le> b"
      "minY (g_ocrWords g) = Fin c" "maxY (g_ocrWords g) = Fin d" "c \<le> d" by blast
    from box(3) have "js_le (Fin 0) (rnd (b - a))" by (intro rounding_nonneg [OF r]) simp
    from js_div_nonneg [OF r pos(1) this]
    have w: "js_le (Fin 0) (js_div rnd (rnd (b - a)) (Fin pw))" .
    from box(6) have "js_le (Fin 0) (rnd (d - c))" by (intro rounding_nonneg [OF r]) simp
    from js_div_nonneg [OF r pos(2) this]
    have "js_le (Fin 0) (js_div rnd (rnd (d - c)) (Fin ph))" .
    with w box show "js_le (Fin 0) (h_width h) \<and> js_le (Fin 0) (h_height h)"
      by (simp add: h wordsToHighlight_def)
  qed
  from first second third show ?thesis by blast
qed

theorem C10_groups_nonempty_witness:
  "quadrilateral word_JOHN \<and> quadrilateral word_DOE \<and> rounding exact \<and>
   (0::real) < 200 \<and> (0::real) < 400 \<and>
   map (\<lambda>(k, g). g_ocrWords g) (collectGroups integerToString mentions_JOHN_X_DOE [word_JOHN, word_DOE])
     = [[word_JOHN, word_DOE]] \<and>
   map h_width (mapFieldListToHighlights exact integerToString ''Name'' ''name'' mentions_JOHN_X_DOE
       [word_JOHN, word_DOE] (Fin 200) (Fin 400)) = [Fin (11 / 20)]"
  using C10_groups_nonempty [of integerToString mentions_JOHN_X_DOE "[word_JOHN, word_DOE]"
      exact 200 400 "''Name''" "''name''"]
  by (simp add: quadrilateral_def finite_number_def mapFieldListToHighlights_def Boolean_def
      rounding_exact example_simps geometry_simps)

text \<open>
  The claim as first stated has the box ordered and the width and height non-negative
  always. A word with no polygon entry resolves under the key \<open>0,0\<close> and forms a non-empty
  group whose box is NaN, so \<open>minX \<le> maxX\<close> is false; and on a page of negative width a
  word of positive extent gets a negative width.
\<close>

theorem C10_groups_nonempty_counterexample:
  "collectGroups integerToString [mention_origin] [word_no_polygon] =
     [(Fin 1, \<lparr>g_words = [''X''], g_ocrWords = [word_no_polygon]\<rparr>)] \<and>
   minX [word_no_polygon] = NaN \<and> maxX [word_no_polygon] = NaN \<and>
   \<not> js_le (minX [word_no_polygon]) (maxX [word_no_polygon]) \<and>
   map h_width (mapFieldListToHighlights exact integerToString ''Name'' ''name''
       [\<lparr>word = ''JOHN'', coordinate = (Fin 10, Fin 20), groupId = Fin 1\<rparr>] [word_JOHN]
       (Fin (- 200)) (Fin 400)) = [Fin (- 1 / 4)] \<and>
   \<not> js_le (Fin 0) (Fin (- 1 / 4))"
  by (simp add: mapFieldListToHighlights_def Boolean_def word_no_polygon_def mention_origin_def
      example_simps geometry_simps)

text \<open>
  Claim C8. The lookup maps a key to the last word of the list that has it: where no word
  after \<open>w\<close> has the key of \<open>w\<close>, the key of \<open>w\<close> is mapped to \<open>w\<close>, whatever words with
  the same key come before, and a mention with that key resolves to \<open>w\<close>.
\<close>

theorem C8_last_write_wins:
  assumes "words = pre @ w # post"
    and "\<forall>v\<in>set post. topLeftKey ns v \<noteq> topLeftKey ns w"
  shows "wordByTopLeft ns words (topLeftKey ns w) = Some w \<and>
         (coordinateKey ns value = topLeftKey ns w \<longrightarrow>
          collectGroups ns [value] words =
            [(groupId value, \<lparr>g_words = [word value], g_ocrWords = [w]\<rparr>)])"
proof -
  have "wordByTopLeft ns words (topLeftKey ns w) = Some w"
    unfolding assms(1) by (rule wordByTopLeft_last [OF assms(2)])
  then show ?thesis by (simp add: collectGroups_def addValue_def)
qed

theorem C8_last_write_wins_witness:
  "[word_JOHN, word_SMITH, word_DOE] = [word_JOHN] @ word_SMITH # [word_DOE] \<and>
   topLeftKey integerToString word_JOHN = topLeftKey integerToString word_SMITH \<and>
   topLeftKey integerToString word_DOE \<noteq> topLeftKey integerToString word_SMITH \<and>
   wordByTopLeft integerToString [word_JOHN, word_SMITH, word_DOE] ''10,20'' = Some word_SMITH \<and>
   collectGroups integerToString
     [\<lparr>word = ''JOHN'', coordinate = (Fin 10, Fin 20), groupId = Fin 1\<rparr>]
     [word_JOHN, word_SMITH, word_DOE] =
     [(Fin 1, \<lparr>g_words = [''JOHN''], g_ocrWords = [word_SMITH]\<rparr>)]"
  using C8_last_write_wins [of "[word_JOHN, word_SMITH, word_DOE]" "[word_JOHN]" word_SMITH
      "[word_DOE]" integerToString
      "\<lparr>word = ''JOHN'', coordinate = (Fin 10, Fin 20), groupId = Fin 1\<rparr>"]
  by (simp add: word_SMITH_def example_simps)

text \<open>
  Claim C4. A mention whose coordinate key is the key of no OCR word is dropped and the
  others are not affected: the highlights of a mention list are those of the list without
  its unresolved mentions. In particular, when the mentions that resolve are two, \<open>a\<close> and
  \<open>b\<close>, of one group (as for three mentions of one group of which one does not resolve),
  the result is the one highlight built from the words of \<open>a\<close> and \<open>b\<close>.
\<close>

theorem C4_unmatched_dropped:
  "mapFieldListToHighlights rnd ns fieldLabel fieldKey values words pageWidth pageHeight =
     mapFieldListToHighlights rnd ns fieldLabel fieldKey (filter (resolves ns words) values) words
       pageWidth pageHeight \<and>
   (filter (resolves ns words) values = [a, b] \<and> groupId a = groupId b \<longrightarrow>
     (\<exists>wa wb. wordByTopLeft ns words (coordinateKey ns a) = Some wa \<and>
         wordByTopLeft ns words (coordinateKey ns b) = Some wb \<and>
         mapFieldListToHighlights rnd ns fieldLabel fieldKey values words pageWidth pageHeight =
           [wordsToHighlight rnd [wa, wb] pageWidth pageHeight
              (fieldLabel @ '': '' @ word a @ '' '' @ word b)
              (''h-'' @ fieldKey @ ''-g-'' @ numberToString ns (groupId a))]))"
proof -
  have eq: "collectGroups ns values words = collectGroups ns (filter (resolves ns words) values) words"
    by (rule collectGroups_filter)
  have first: "mapFieldListToHighlights rnd ns fieldLabel fieldKey values words pageWidth pageHeight =
     mapFieldListToHighlights rnd ns fieldLabel fieldKey (filter (resolves ns words) values) words
       pageWidth pageHeight"
    unfolding mapFieldListToHighlights_groups by (simp only: eq [symmetric])
  have second: "\<exists>wa wb. wordByTopLeft ns words (coordinateKey ns a) = Some wa \<and>
         wordByTopLeft ns words (coordinateKey ns b) = Some wb \<and>
         mapFieldListToHighlights rnd ns fieldLabel fieldKey values words pageWidth pageHeight =
           [wordsToHighlight rnd [wa, wb] pageWidth pageHeight
              (fieldLabel @ '': '' @ word a @ '' '' @ word b)
              (''h-'' @ fieldKey @ ''-g-'' @ numberToString ns (groupId a))]"
    if f: "filter (resolves ns words) values = [a, b]" and g: "groupId a = groupId b"
  proof -
    have "a \<in> set (filter (resolves ns words) values)" "b \<in> set (filter (resolves ns words) values)"
      by (simp_all add: f)
    then have "resolves ns words a" "resolves ns words b" by simp_all
    then obtain wa wb where wa: "wordByTopLeft ns words (coordinateKey ns a) = Some wa"
      and wb: "wordByTopLeft ns words (coordinateKey ns b) = Some wb"
      by (auto simp: resolves_iff)
    have "collectGroups ns values words = collectGroups ns [a, b] words"
      using eq by (simp only: f)
    also have "\<dots> = [(groupId a, \<lparr>g_words = [word a, word b], g_ocrWords = [wa, wb]\<rparr>)]"
      by (simp add: collectGroups_def addValue_def wa wb g)
    finally show ?thesis
      using wa wb by (simp add: mapFieldListToHighlights_groups)
  qed
  from first second show ?thesis by blast
qed

theorem C4_unmatched_dropped_witness:
  "filter (resolves integerToString [word_JOHN, word_DOE]) mentions_JOHN_X_DOE =
     [\<lparr>word = ''JOHN'', coordinate = (Fin 10, Fin 20), groupId = Fin 1\<rparr>,
      \<lparr>word = ''DOE'', coordinate = (Fin 70, Fin 20), groupId = Fin 1\<rparr>] \<and>
   mapFieldListToHighlights exact integerToString ''Name'' ''name'' mentions_JOHN_X_DOE
       [word_JOHN, word_DOE] (Fin 200) (Fin 400) =
     [wordsToHighlight exact [word_JOHN, word_DOE] (Fin 200) (Fin 400) ''Name: JOHN DOE'' ''h-name-g-1'']"
  using C4_unmatched_dropped [of exact integerToString "''Name''" "''name''" mentions_JOHN_X_DOE
      "[word_JOHN, word_DOE]" "Fin 200" "Fin 400"
      "\<lparr>word = ''JOHN'', coordinate = (Fin 10, Fin 20), groupId = Fin 1\<rparr>"
      "\<lparr>word = ''DOE'', coordinate = (Fin 70, Fin 20), groupId = Fin 1\<rparr>"]
  by (simp add: resolves_def mapFieldListToHighlights_def Boolean_def example_simps)

section \<open>The order of the highlights and a scenario\<close>

text \<open>
  Claim C5, as amended. The final list holds the highlights of the name mentions, then
  those of the date of birth, of the address and of the cause of death; within a
  category there is one highlight per group that has a resolved mention, in the order in
  which the group identifiers first appear among the resolved mentions. A category none
  of whose mentions resolves (or that has none) contributes no highlight.
\<close>

theorem C5_order:
  "map h_id (mapFieldsToHighlights rnd ns fields' words pageWidth pageHeight) =
     map (\<lambda>g. ''h-name-g-'' @ numberToString ns g)
       (firstSeen (map groupId (filter (resolves ns words) (name fields')))) @
     map (\<lambda>g. ''h-dateOfBirth-g-'' @ numberToString ns g)
       (firstSeen (map groupId (filter (resolves ns words) (dateOfBirth fields')))) @
     map (\<lambda>g. ''h-address-g-'' @ numberToString ns g)
       (firstSeen (map groupId (filter (resolves ns words) (address fields')))) @
     map (\<lambda>g. ''h-causeOfDeath-g-'' @ numberToString ns g)
       (firstSeen (map groupId (filter (resolves ns words) (causeOfDeath fields')))) \<and>
   ((\<forall>v\<in>set values. \<not> resolves ns words v) \<longrightarrow>
      mapFieldListToHighlights rnd ns fieldLabel fieldKey values words pageWidth pageHeight = [])"
proof -
  have ids: "map h_id (normalizeHighlights rnd hs) = map h_id hs" for hs
    by (simp add: normalizeHighlights_def Let_def comp_def)
  have first: "map h_id (mapFieldsToHighlights rnd ns fields' words pageWidth pageHeight) =
     map (\<lambda>g. ''h-name-g-'' @ numberToString ns g)
       (firstSeen (map groupId (filter (resolves ns words) (name fields')))) @
     map (\<lambda>g. ''h-dateOfBirth-g-'' @ numberToString ns g)
       (firstSeen (map groupId (filter (resolves ns words) (dateOfBirth fields')))) @
     map (\<lambda>g. ''h-address-g-'' @ numberToString ns g)
       (firstSeen (map groupId (filter (resolves ns words) (address fields')))) @
     map (\<lambda>g. ''h-causeOfDeath-g-'' @ numberToString ns g)
       (firstSeen (map groupId (filter (resolves ns words) (causeOfDeath fields'))))"
    by (simp add: mapFieldsToHighlights_def Let_def ids mapFieldListToHighlights_ids)
  have second: "mapFieldListToHighlights rnd ns fieldLabel fieldKey values words pageWidth pageHeight = []"
    if "\<forall>v\<in>set values. \<not> resolves ns words v"
  proof -
    from that have "filter (resolves ns words) values = []" by (simp add: filter_empty_conv)
    then have "collectGroups ns values words = []"
      using collectGroups_filter [of ns "values" words] by (simp add: collectGroups_Nil)
    then show ?thesis by (simp add: mapFieldListToHighlights_groups)
  qed
  from first second show ?thesis by blast
qed

theorem C5_order_witness:
  "\<not> resolves integerToString [word_JOHN, word_DOE]
       \<lparr>word = ''X'', coordinate = (Fin 999, Fin 999), groupId = Fin 1\<rparr> \<and>
   mapFieldListToHighlights exact integerToString ''Address'' ''address''
     [\<lparr>word = ''X'', coordinate = (Fin 999, Fin 999), groupId = Fin 1\<rparr>]
     [word_JOHN, word_DOE] (Fin 200) (Fin 400) = [] \<and>
   map h_id (mapFieldsToHighlights exact integerToString
      \<lparr>name = mentions_late_group, dateOfBirth = [], address = mentions_JOHN_X_DOE,
       causeOfDeath = []\<rparr> [word_JOHN, word_DOE] (Fin 200) (Fin 400)) =
     [''h-name-g-2'', ''h-name-g-1'', ''h-address-g-1'']"
  using C5_order [of exact integerToString
      "\<lparr>name = mentions_late_group, dateOfBirth = [], address = mentions_JOHN_X_DOE,
       causeOfDeath = []\<rparr>" "[word_JOHN, word_DOE]" "Fin 200" "Fin 400"
      "[\<lparr>word = ''X'', coordinate = (Fin 999, Fin 999), groupId = Fin 1\<rparr>]"
      "''Address''" "''address''"]
  by (simp add: resolves_def firstSeen_def mentions_late_group_def example_simps)

text \<open>
  The claim as first stated orders the groups by the first appearance of their identifier
  in the whole mention list. In \<open>mentions_late_group\<close> group 1 appears first, with a mention
  that does not resolve, and its highlight comes after that of group 2.
\<close>

theorem C5_order_counterexample:
  "map h_id (mapFieldsToHighlights exact integerToString
      \<lparr>name = mentions_late_group, dateOfBirth = [], address = [], causeOfDeath = []\<rparr>
      [word_JOHN, word_DOE] (Fin 200) (Fin 400)) = [''h-name-g-2'', ''h-name-g-1''] \<and>
   firstSeen (map groupId mentions_late_group) = [Fin 1, Fin 2]"
  by (simp add: mapFieldsToHighlights_def mapFieldListToHighlights_def Boolean_def
      normalizeHighlights_def Let_def firstSeen_def mentions_late_group_def example_simps
      geometry_simps)

text \<open>
  Claim C6. The word \<open>DOE\<close> with polygon \<open>[10,20,60,20,60,40,10,40]\<close> on a page of 200 by
  400 and the single name mention \<open>DOE\<close> at \<open>[10,20]\<close> of group 1 give exactly one highlight,
  with \<open>x = 0.05\<close>, \<open>y = 0.05\<close>, \<open>width = 0.25\<close>, \<open>height = 0.05\<close> and the text
  \<open>Name: DOE\<close>. These are the values where nothing rounds; under a rounding that is
  exact at the binary64 numbers 20, 50, 1/4 and 1/2, \<open>x\<close>, \<open>y\<close> and \<open>height\<close> are the
  rounded 1/20, the number that the literal \<open>0.05\<close> denotes, and \<open>width\<close> is 1/4.
\<close>

theorem C6_single_word:
  "mapFieldsToHighlights exact ns
     \<lparr>name = [\<lparr>word = ''DOE'', coordinate = (Fin 10, Fin 20), groupId = Fin 1\<rparr>],
      dateOfBirth = [], address = [], causeOfDeath = []\<rparr>
     [\<lparr>content = ''DOE'', polygon = map Fin [10, 20, 60, 20, 60, 40, 10, 40]\<rparr>]
     (Fin 200) (Fin 400) =
   [\<lparr>h_id = ''h-name-g-'' @ ns 1, h_x = Fin 0.05, h_y = Fin 0.05, h_width = Fin 0.25,
     h_height = Fin 0.05, h_text = ''Name: DOE''\<rparr>] \<and>
   (rounding rnd \<and> rnd 20 = Fin 20 \<and> rnd 50 = Fin 50 \<and> rnd (1 / 4) = Fin (1 / 4) \<and>
    rnd (1 / 2) = Fin (1 / 2) \<longrightarrow>
    mapFieldsToHighlights rnd ns
      \<lparr>name = [\<lparr>word = ''DOE'', coordinate = (Fin 10, Fin 20), groupId = Fin 1\<rparr>],
       dateOfBirth = [], address = [], causeOfDeath = []\<rparr>
      [\<lparr>content = ''DOE'', polygon = map Fin [10, 20, 60, 20, 60, 40, 10, 40]\<rparr>]
      (Fin 200) (Fin 400) =
    [\<lparr>h_id = ''h-name-g-'' @ ns 1, h_x = rnd (1 / 20), h_y = rnd (1 / 20),
      h_width = Fin (1 / 4), h_height = rnd (1 / 20), h_text = ''Name: DOE''\<rparr>])"
proof -
  have first: "mapFieldsToHighlights exact ns
     \<lparr>name = [\<lparr>word = ''DOE'', coordinate = (Fin 10, Fin 20), groupId = Fin 1\<rparr>],
      dateOfBirth = [], address = [], causeOfDeath = []\<rparr>
     [\<lparr>content = ''DOE'', polygon = map Fin [10, 20, 60, 20, 60, 40, 10, 40]\<rparr>]
     (Fin 200) (Fin 400) =
   [\<lparr>h_id = ''h-name-g-'' @ ns 1, h_x = Fin 0.05, h_y = Fin 0.05, h_width = Fin 0.25,
     h_height = Fin 0.05, h_text = ''Name: DOE''\<rparr>]"
    by (simp add: mapFieldsToHighlights_def mapFieldListToHighlights_def Boolean_def
        normalizeHighlights_def Let_def collectGroups_def addValue_def wordByTopLeft_def
        topLeftKey_def coordinateKey_def numberToString_def elem_at_def nullish_def
        geometry_simps)
  have second: "mapFieldsToHighlights rnd ns
      \<lparr>name = [\<lparr>word = ''DOE'', coordinate = (Fin 10, Fin 20), groupId = Fin 1\<rparr>],
       dateOfBirth = [], address = [], causeOfDeath = []\<rparr>
      [\<lparr>content = ''DOE'', polygon = map Fin [10, 20, 60, 20, 60, 40, 10, 40]\<rparr>]
      (Fin 200) (Fin 400) =
    [\<lparr>h_id = ''h-name-g-'' @ ns 1, h_x = rnd (1 / 20), h_y = rnd (1 / 20),
      h_width = Fin (1 / 4), h_height = rnd (1 / 20), h_text = ''Name: DOE''\<rparr>]"
    if r: "rounding rnd" and e: "rnd 20 = Fin 20" "rnd 50 = Fin 50"
      "rnd (1 / 4) = Fin (1 / 4)" "rnd (1 / 2) = Fin (1 / 2)"
  proof -
    have "js_le (Fin 0) (rnd (1 / 20))" by (rule rounding_nonneg [OF r]) simp
    moreover have "js_le (rnd (1 / 20)) (rnd (1 / 2))" by (rule rounding_mono [OF r]) simp
    ultimately obtain c where c: "rnd (1 / 20) = Fin c" "0 \<le> c" "c \<le> 1 / 2"
      by (cases "rnd (1 / 20)") (simp_all add: e)
    have "js_le (rnd (1 / 2)) (rnd (1 - c))" using c by (intro rounding_mono [OF r]) simp
    moreover have "js_le (rnd (1 - c)) (rnd 1)" using c by (intro rounding_mono [OF r]) simp
    ultimately obtain t where t: "rnd (1 - c) = Fin t" "1 / 2 \<le> t" "t \<le> 1"
      using r by (cases "rnd (1 - c)") (simp_all add: e rounding_def)
    show ?thesis
      using c t
      by (simp add: mapFieldsToHighlights_def mapFieldListToHighlights_def Boolean_def
          normalizeHighlights_def Let_def collectGroups_def addValue_def wordByTopLeft_def
          topLeftKey_def coordinateKey_def numberToString_def elem_at_def nullish_def
          wordsToHighlight_def minX_def maxX_def minY_def maxY_def allXs_def allYs_def
          ToNumber_def Math_min_def Math_max_def min2_def max2_def e)
  qed
  from first second show ?thesis by blast
qed

theorem C6_single_word_witness:
  "rounding exact \<and> exact 20 = Fin 20 \<and> exact 50 = Fin 50 \<and> exact (1 / 4) = Fin (1 / 4) \<and>
   exact (1 / 2) = Fin (1 / 2) \<and>
   mapFieldsToHighlights exact integerToString
     \<lparr>name = [\<lparr>word = ''DOE'', coordinate = (Fin 10, Fin 20), groupId = Fin 1\<rparr>],
      dateOfBirth = [], address = [], causeOfDeath = []\<rparr>
     [\<lparr>content = ''DOE'', polygon = map Fin [10, 20, 60, 20, 60, 40, 10, 40]\<rparr>]
     (Fin 200) (Fin 400) =
   [\<lparr>h_id = ''h-name-g-1'', h_x = Fin 0.05, h_y = Fin 0.05, h_width = Fin 0.25,
     h_height = Fin 0.05, h_text = ''Name: DOE''\<rparr>]"
  using C6_single_word [of integerToString exact]
  by (simp add: rounding_exact exact_def integerToString_def digit_def)

section \<open>The serializer and the extraction client\<close>

lemma splitLines_single: "CHR 0x0A \<notin> set l \<Longrightarrow> splitLines l = [l]"
  by (induction l) auto

lemma splitLines_line:
  "CHR 0x0A \<notin> set l \<Longrightarrow> splitLines (l @ newline @ rest) = l # splitLines rest"
  by (induction l) (auto simp: newline_def)

lemma join_snoc:
  "join sep (ls @ [l]) = (if ls = [] then l else join sep ls @ sep @ l)"
  by (induction sep ls rule: join.induct) auto

lemma splitLines_join:
  "ls \<noteq> [] \<Longrightarrow> \<forall>l\<in>set ls. CHR 0x0A \<notin> set l \<Longrightarrow> splitLines (join newline ls) = ls"
proof (induction newline ls rule: join.induct)
  case 1
  then show ?case by simp
next
  case (2 s)
  then show ?case by (simp add: splitLines_single)
next
  case (3 s t ss)
  then show ?case by (simp add: splitLines_line)
qed

lemma toTopLeftOcrLines_join:
  "toTopLeftOcrLines ns words = join newline (map (ocrLine ns) words)"
  by (simp add: toTopLeftOcrLines_def Let_def ocrLine_def [abs_def])

text \<open>
  Claim C7. The serializer writes one line \<open>content:x, y\<close> per word, with the word's
  top-left corner, in the order of the list, the lines joined by newlines: the text of no
  word is empty, the text of a list extended by a word is the text of the list, a newline
  and the line of that word, and (where no line itself holds a newline) the lines of the
  text are exactly the lines of the words, one per word, none dropped and none merged.
  The text is a function of the word list, so serializing a list twice gives one string.
\<close>

theorem C7_serializer:
  "toTopLeftOcrLines ns [] = [] \<and>
   toTopLeftOcrLines ns (words @ [w]) =
     (if words = [] then ocrLine ns w
      else toTopLeftOcrLines ns words @ newline @ ocrLine ns w) \<and>
   (words \<noteq> [] \<and> (\<forall>w\<in>set words. CHR 0x0A \<notin> set (ocrLine ns w)) \<longrightarrow>
      splitLines (toTopLeftOcrLines ns words) = map (ocrLine ns) words)"
proof -
  have "toTopLeftOcrLines ns [] = []" by (simp add: toTopLeftOcrLines_join)
  moreover have "toTopLeftOcrLines ns (words @ [w]) =
     (if words = [] then ocrLine ns w
      else toTopLeftOcrLines ns words @ newline @ ocrLine ns w)"
    by (simp add: toTopLeftOcrLines_join join_snoc)
  moreover have "splitLines (toTopLeftOcrLines ns words) = map (ocrLine ns) words"
    if "words \<noteq> []" and "\<forall>w\<in>set words. CHR 0x0A \<notin> set (ocrLine ns w)"
    unfolding toTopLeftOcrLines_join using that by (intro splitLines_join) auto
  ultimately show ?thesis by blast
qed

theorem C7_serializer_witness:
  "[word_JOHN, word_DOE] \<noteq> [] \<and>
   CHR 0x0A \<notin> set (ocrLine integerToString word_JOHN) \<and>
   CHR 0x0A \<notin> set (ocrLine integerToString word_DOE) \<and>
   toTopLeftOcrLines integerToString [word_JOHN, word_DOE] =
     ''JOHN:10, 20'' @ newline @ ''DOE:70, 20'' \<and>
   splitLines (toTopLeftOcrLines integerToString [word_JOHN, word_DOE]) =
     [''JOHN:10, 20'', ''DOE:70, 20'']"
  using C7_serializer [of integerToString "[word_JOHN, word_DOE]" word_DOE]
  by (simp add: toTopLeftOcrLines_def ocrLine_def newline_def example_simps)

lemma no_fields_found:
  assumes "generateContent (toTopLeftOcrLines ns words) = None \<or>
           generateContent (toTopLeftOcrLines ns words) = Some [] \<or>
           (\<exists>text v. generateContent (toTopLeftOcrLines ns words) = Some text \<and>
              JSON_parse text = Inr v \<and> parsedFieldsSchema v = None)"
  shows "runDeathCertificatePipeline rnd ns generateContent JSON_parse page words = Inr []"
  using assms
  by (auto simp: runDeathCertificatePipeline_def extractFieldsFromGemini_def)

text \<open>
  Claim C1 says that a response text that is not valid JSON yields the empty highlight
  list and that no exception leaves the pipeline. The code does so for a missing or empty
  text and for a value that fails the schema (\<open>no_fields_found\<close>), but not when
  \<^verbatim>\<open>JSON.parse\<close> throws: the exception leaves \<^verbatim>\<open>extractFieldsFromGemini\<close> and the
  orchestrator.
\<close>

theorem C1_invalid_json_throws:
  assumes "generateContent (toTopLeftOcrLines ns words) = Some text"
    and "text \<noteq> []" and "JSON_parse text = Inl e"
  shows "extractFieldsFromGemini generateContent JSON_parse (toTopLeftOcrLines ns words) = Inl e \<and>
         runDeathCertificatePipeline rnd ns generateContent JSON_parse page words = Inl e"
  using assms by (simp add: runDeathCertificatePipeline_def extractFieldsFromGemini_def)

theorem C1_invalid_json_throws_witness:
  "(\<lambda>ocrLineText. Some ''{'') (toTopLeftOcrLines integerToString [word_JOHN]) = Some ''{'' \<and>
   ''{'' \<noteq> [] \<and>
   (\<lambda>s. if s = ''{'' then Inl SyntaxError else Inr JNull) ''{'' = Inl SyntaxError \<and>
   runDeathCertificatePipeline exact integerToString (\<lambda>ocrLineText. Some ''{'')
     (\<lambda>s. if s = ''{'' then Inl SyntaxError else Inr JNull)
     \<lparr>width = Fin 200, height = Fin 400\<rparr> [word_JOHN] = Inl SyntaxError"
  using C1_invalid_json_throws [of "\<lambda>ocrLineText. Some ''{''" integerToString "[word_JOHN]" "''{''"
      "\<lambda>s. if s = ''{'' then Inl SyntaxError else Inr JNull" SyntaxError exact
      "\<lparr>width = Fin 200, height = Fin 400\<rparr>"]
  by simp

section \<open>The ranges of the clamps\<close>





end
